theory Spec2Isabelle
  imports Main "HOL-Library.Monad_Syntax"
begin

section \<open>Objects, references and the console\<close>

text \<open>
  An object lives at a reference. The store is the list of the objects constructed so
  far and a reference is a position in it: constructing an object appends it to the
  store and returns its position, and touches no object that exists. A reference at
  which the store holds no object stands for an argument that does not implement the
  interface; a method call on it raises \<open>AttributeError\<close>.
\<close>

type_synonym ref = nat

datatype error = AttributeError | ValueError string

definition lookup :: "'a list \<Rightarrow> ref \<Rightarrow> 'a option" where
  "lookup h r = (if r < length h then Some (h ! r) else None)"

definition new_object :: "'a \<Rightarrow> 'a list \<Rightarrow> ref \<times> 'a list" where
  "new_object obj h = (length h, h @ [obj])"

text \<open>
  \<open>print(s)\<close> writes one line to the console; the console is the list of its lines.
  Text is held in UTF-8, so the pictographs of the sources are four bytes each.
\<close>

definition print :: "string \<Rightarrow> string list \<Rightarrow> string list" where
  "print s out = out @ [s]"

abbreviation envelope :: string where
  "envelope \<equiv> [CHR 0xF0, CHR 0x9F, CHR 0x93, CHR 0xA7]"

abbreviation mobile_phone :: string where
  "mobile_phone \<equiv> [CHR 0xF0, CHR 0x9F, CHR 0x93, CHR 0xB1]"

abbreviation bell :: string where
  "bell \<equiv> [CHR 0xF0, CHR 0x9F, CHR 0x94, CHR 0x94]"

abbreviation mobile_phone_arrow :: string where
  "mobile_phone_arrow \<equiv> [CHR 0xF0, CHR 0x9F, CHR 0x93, CHR 0xB2]"


section \<open>structural/decorator/Eg1\_Coffee\_Shop.py\<close>

text \<open>
  \<open>Coffee\<close> has no fields. \<open>AddonDecorator.__init__\<close> stores the wrapped beverage in
  the field \<open>beverage\<close> of the new object, and \<open>Milk\<close>, \<open>Sugar\<close> and \<open>Caramel\<close>
  inherit it: an add-on object is its class and that one field. \<open>AddonDecorator\<close>
  overrides both abstract methods of \<open>Beverage\<close>, so it can be instantiated itself.
\<close>

datatype addon_class = AddonDecorator | Milk | Sugar | Caramel

datatype beverage_obj = Coffee | Addon addon_class ref

text \<open>
  \<open>cost\<close> and \<open>description\<close> follow the field \<open>beverage\<close> through the store. Where
  the references form a cycle the call never returns: the value \<open>None\<close> (the
  interpreter's recursion limit is not modelled). An exception raised by the wrapped
  call propagates.
\<close>

partial_function (option) cost :: "beverage_obj list \<Rightarrow> ref \<Rightarrow> (error + int) option" where
  "cost h self =
     (case lookup h self of
        None \<Rightarrow> Some (Inl AttributeError)
      | Some Coffee \<Rightarrow> Some (Inr 50)
      | Some (Addon AddonDecorator beverage) \<Rightarrow> cost h beverage
      | Some (Addon Milk beverage) \<Rightarrow>
          do { r \<leftarrow> cost h beverage;
               Some (case r of Inl e \<Rightarrow> Inl e | Inr c \<Rightarrow> Inr (c + 10)) }
      | Some (Addon Sugar beverage) \<Rightarrow>
          do { r \<leftarrow> cost h beverage;
               Some (case r of Inl e \<Rightarrow> Inl e | Inr c \<Rightarrow> Inr (c + 5)) }
      | Some (Addon Caramel beverage) \<Rightarrow>
          do { r \<leftarrow> cost h beverage;
               Some (case r of Inl e \<Rightarrow> Inl e | Inr c \<Rightarrow> Inr (c + 20)) })"

partial_function (option) description :: "beverage_obj list \<Rightarrow> ref \<Rightarrow> (error + string) option" where
  "description h self =
     (case lookup h self of
        None \<Rightarrow> Some (Inl AttributeError)
      | Some Coffee \<Rightarrow> Some (Inr ''Plain Coffee'')
      | Some (Addon AddonDecorator beverage) \<Rightarrow> description h beverage
      | Some (Addon Milk beverage) \<Rightarrow>
          do { r \<leftarrow> description h beverage;
               Some (case r of Inl e \<Rightarrow> Inl e | Inr d \<Rightarrow> Inr (d @ '' + Milk'')) }
      | Some (Addon Sugar beverage) \<Rightarrow>
          do { r \<leftarrow> description h beverage;
               Some (case r of Inl e \<Rightarrow> Inl e | Inr d \<Rightarrow> Inr (d @ '' + Sugar'')) }
      | Some (Addon Caramel beverage) \<Rightarrow>
          do { r \<leftarrow> description h beverage;
               Some (case r of Inl e \<Rightarrow> Inl e | Inr d \<Rightarrow> Inr (d @ '' + Caramel'')) })"

declare cost.simps [code]

declare description.simps [code]

text \<open>\<open>D(beverage)\<close> for an add-on class \<open>D\<close>: one new object that holds the reference.\<close>

definition wrap :: "addon_class \<Rightarrow> ref \<Rightarrow> beverage_obj list \<Rightarrow> ref \<times> beverage_obj list" where
  "wrap D beverage h = new_object (Addon D beverage) h"

text \<open>A client wraps a beverage in a sequence of add-ons, each around the result of the last.\<close>

fun wrap_in_order :: "addon_class list \<Rightarrow> ref \<Rightarrow> beverage_obj list \<Rightarrow> ref \<times> beverage_obj list" where
  "wrap_in_order [] b h = (b, h)"
| "wrap_in_order (D # Ds) b h = (case wrap D b h of (b', h') \<Rightarrow> wrap_in_order Ds b' h')"

text \<open>The names that the main block binds, and the store when it ends.\<close>

record coffee_shop =
  coffee :: ref
  coffee_with_milk :: ref
  coffee_with_milk_sugar :: ref
  deluxe_coffee :: ref
  store :: "beverage_obj list"

definition main :: coffee_shop where
  "main =
     (case new_object Coffee [] of (c, h1) \<Rightarrow>
      case wrap Milk c h1 of (cm, h2) \<Rightarrow>
      case wrap Sugar cm h2 of (cms, h3) \<Rightarrow>
      case wrap Caramel cms h3 of (d, h4) \<Rightarrow>
        \<lparr>coffee = c, coffee_with_milk = cm, coffee_with_milk_sugar = cms,
         deluxe_coffee = d, store = h4\<rparr>)"

text \<open>
  What each add-on class contributes, as the comments beside its methods declare it
  (\<open>AddonDecorator\<close> itself contributes nothing).
\<close>

fun price :: "addon_class \<Rightarrow> int" where
  "price AddonDecorator = 0"
| "price Milk = 10"
| "price Sugar = 5"
| "price Caramel = 20"

fun suffix :: "addon_class \<Rightarrow> string" where
  "suffix AddonDecorator = []"
| "suffix Milk = '' + Milk''"
| "suffix Sugar = '' + Sugar''"
| "suffix Caramel = '' + Caramel''"


section \<open>structural/decorator/Eg2\_Notification\_System.py\<close>

text \<open>
  The field \<open>notifier\<close> is assigned in \<open>NotificationDecorator.__init__\<close> and nowhere
  else, and nothing here depends on which object a reference denotes, so a notifier is
  the finite nest of its constructor calls. \<open>send\<close> takes the console and returns it
  with the lines printed. The concrete decorators call \<open>super().send(message)\<close>, the
  method of \<open>NotificationDecorator\<close>, which calls \<open>send\<close> of the field.
\<close>

datatype notifier_class = NotificationDecorator | EmailNotifier | SMSNotifier | PushNotifier

datatype notifier = BasicNotifier | Decorator notifier_class notifier

fun send :: "notifier \<Rightarrow> string \<Rightarrow> string list \<Rightarrow> string list"
  and NotificationDecorator_send :: "notifier \<Rightarrow> string \<Rightarrow> string list \<Rightarrow> string list" where
  "send BasicNotifier message out = print (''Basic Notificatio: '' @ message) out"
| "send (Decorator NotificationDecorator notifier) message out =
     NotificationDecorator_send notifier message out"
| "send (Decorator EmailNotifier notifier) message out =
     print (envelope @ '' Sending Email: '' @ message)
       (NotificationDecorator_send notifier message out)"
| "send (Decorator SMSNotifier notifier) message out =
     print (mobile_phone @ '' Sending SMS: '' @ message)
       (NotificationDecorator_send notifier message out)"
| "send (Decorator PushNotifier notifier) message out =
     print (bell @ '' Sending Push Notification: '' @ message)
       (NotificationDecorator_send notifier message out)"
| "NotificationDecorator_send notifier message out = send notifier message out"

text \<open>A client nests decorators around the basic notifier, each around the result of the last.\<close>

definition nest :: "notifier_class list \<Rightarrow> notifier \<Rightarrow> notifier" where
  "nest Ds n = foldl (\<lambda>n D. Decorator D n) n Ds"

text \<open>The lines a decorator class prints itself.\<close>

fun own_lines :: "notifier_class \<Rightarrow> string \<Rightarrow> string list" where
  "own_lines NotificationDecorator message = []"
| "own_lines EmailNotifier message = [envelope @ '' Sending Email: '' @ message]"
| "own_lines SMSNotifier message = [mobile_phone @ '' Sending SMS: '' @ message]"
| "own_lines PushNotifier message = [bell @ '' Sending Push Notification: '' @ message]"


section \<open>creational/factory.py\<close>

text \<open>
  The classes that can be instantiated, none with a field, and the abstract class each
  is declared under. A product has \<open>notify\<close>; a creator has \<open>create_notification\<close> and
  the inherited \<open>send_notification\<close>.
\<close>

datatype factory_obj =
  EmailNotification | SMSNotification | PushNotification
  | SMSNotificationFactory | EmailNotificationFactory | PushNotificationFactory

datatype abstract_class = Notification | NotificationFactory

fun base :: "factory_obj \<Rightarrow> abstract_class" where
  "base EmailNotification = Notification"
| "base SMSNotification = Notification"
| "base PushNotification = Notification"
| "base SMSNotificationFactory = NotificationFactory"
| "base EmailNotificationFactory = NotificationFactory"
| "base PushNotificationFactory = NotificationFactory"

definition isinstance :: "factory_obj list \<Rightarrow> ref \<Rightarrow> abstract_class \<Rightarrow> bool" where
  "isinstance h r C = (case lookup h r of None \<Rightarrow> False | Some obj \<Rightarrow> base obj = C)"

definition notify :: "factory_obj list \<Rightarrow> ref \<Rightarrow> string \<Rightarrow> string list \<Rightarrow> error + string list" where
  "notify h self message out =
     (case lookup h self of
        Some EmailNotification \<Rightarrow> Inr (print (envelope @ '' Sending Email: '' @ message) out)
      | Some SMSNotification \<Rightarrow> Inr (print (mobile_phone @ '' Sending SMS: '' @ message) out)
      | Some PushNotification \<Rightarrow>
          Inr (print (mobile_phone_arrow @ '' Sending Push Notification: '' @ message) out)
      | _ \<Rightarrow> Inl AttributeError)"

definition create_notification :: "factory_obj list \<Rightarrow> ref \<Rightarrow> (error + ref) \<times> factory_obj list" where
  "create_notification h self =
     (case lookup h self of
        Some SMSNotificationFactory \<Rightarrow>
          (case new_object SMSNotification h of (r, h') \<Rightarrow> (Inr r, h'))
      | Some EmailNotificationFactory \<Rightarrow>
          (case new_object EmailNotification h of (r, h') \<Rightarrow> (Inr r, h'))
      | Some PushNotificationFactory \<Rightarrow>
          (case new_object PushNotification h of (r, h') \<Rightarrow> (Inr r, h'))
      | _ \<Rightarrow> (Inl AttributeError, h))"

definition send_notification ::
  "factory_obj list \<Rightarrow> ref \<Rightarrow> string \<Rightarrow> string list \<Rightarrow> (error + string list) \<times> factory_obj list" where
  "send_notification h self message out =
     (case create_notification h self of
        (Inl e, h') \<Rightarrow> (Inl e, h')
      | (Inr notification, h') \<Rightarrow> (notify h' notification message out, h'))"

definition get_notification_factory :: "string \<Rightarrow> factory_obj list \<Rightarrow> (error + ref) \<times> factory_obj list" where
  "get_notification_factory notification_type h =
     (if notification_type = ''email'' then
        (case new_object EmailNotification h of (r, h') \<Rightarrow> (Inr r, h'))
      else if notification_type = ''sms'' then
        (case new_object SMSNotification h of (r, h') \<Rightarrow> (Inr r, h'))
      else if notification_type = ''push'' then
        (case new_object PushNotification h of (r, h') \<Rightarrow> (Inr r, h'))
      else (Inl (ValueError ''Invalid notification type''), h))"


section \<open>creational/singleton.py\<close>

text \<open>
  The state of the module is the class attribute \<open>_instance\<close> and the store of the
  instances built. \<open>__new__\<close> runs its whole body holding \<open>_lock\<close>, so calls do not
  overlap and each is one step from the state the call before it left.
\<close>

datatype singleton_obj = Singleton

record singleton_state =
  Singleton_instance :: "ref option"
  instances :: "singleton_obj list"

definition class_body :: singleton_state where
  "class_body = \<lparr>Singleton_instance = None, instances = []\<rparr>"

definition Singleton_new :: "singleton_state \<Rightarrow> ref \<times> singleton_state" where
  "Singleton_new s =
     (case Singleton_instance s of
        None \<Rightarrow>
          (case new_object Singleton (instances s) of
             (r, h') \<Rightarrow> (r, s\<lparr>Singleton_instance := Some r, instances := h'\<rparr>))
      | Some r \<Rightarrow> (r, s))"

text \<open>The state after \<open>n\<close> further calls whose results are dropped.\<close>

definition after_calls :: "nat \<Rightarrow> singleton_state \<Rightarrow> singleton_state" where
  "after_calls n s = ((\<lambda>s. snd (Singleton_new s)) ^^ n) s"


section \<open>Lemmas\<close>

subsection \<open>The store\<close>

lemma lookup_append_old: "r < length h \<Longrightarrow> lookup (h @ [obj]) r = lookup h r"
  by (simp add: lookup_def nth_append)

lemma lookup_append_new: "lookup (h @ [obj]) (length h) = Some obj"
  by (simp add: lookup_def)

lemma lookup_Some_less: "lookup h r = Some obj \<Longrightarrow> r < length h"
  by (simp add: lookup_def split: if_splits)

lemma lookup_fresh: "lookup h (length h) = None"
  by (simp add: lookup_def)

lemma bind_Inr_dest:
  assumes "(m \<bind> (\<lambda>r. Some (case r of Inl e \<Rightarrow> Inl e | Inr v \<Rightarrow> Inr (f v)))) = Some (Inr x)"
  obtains v where "m = Some (Inr v)" and "x = f v"
proof (cases m)
  case None
  with assms show ?thesis by simp
next
  case (Some r)
  with assms that show ?thesis by (cases r) auto
qed

subsection \<open>A call that returned a value returns it in every later store\<close>

lemma cost_append_aux:
  assumes "cost h0 r0 = Some y0"
  shows "\<forall>x. y0 = Inr x \<longrightarrow> cost (h0 @ [obj]) r0 = Some (Inr x)"
proof (rule cost.raw_induct
    [where P = "\<lambda>h r y. \<forall>x. y = Inr x \<longrightarrow> cost (h @ [obj]) r = Some (Inr x)", OF _ assms],
    goal_cases)
  case (1 cost' h r y)
  show ?case
  proof (intro allI impI)
    fix x assume y: "y = Inr x"
    show "cost (h @ [obj]) r = Some (Inr x)"
    proof (cases "lookup h r")
      case None
      with 1(2) y show ?thesis by simp
    next
      case (Some b)
      then have lk: "lookup (h @ [obj]) r = Some b"
        by (simp add: lookup_append_old lookup_Some_less)
      show ?thesis
      proof (cases b)
        case Coffee
        with 1(2) y Some lk show ?thesis by (subst cost.simps) simp
      next
        case (Addon D w)
        show ?thesis
        proof (cases D)
          case AddonDecorator
          with 1(2) y Some Addon have "cost' h w = Some (Inr x)" by simp
          with 1(1) have "cost (h @ [obj]) w = Some (Inr x)" by blast
          with AddonDecorator Addon lk show ?thesis by (subst cost.simps) simp
        next
          case Milk
          with 1(2) y Some Addon obtain c where "cost' h w = Some (Inr c)" "x = c + 10"
            by (auto elim: bind_Inr_dest)
          with 1(1) have "cost (h @ [obj]) w = Some (Inr c)" by blast
          with Milk Addon lk \<open>x = c + 10\<close> show ?thesis by (subst cost.simps) simp
        next
          case Sugar
          with 1(2) y Some Addon obtain c where "cost' h w = Some (Inr c)" "x = c + 5"
            by (auto elim: bind_Inr_dest)
          with 1(1) have "cost (h @ [obj]) w = Some (Inr c)" by blast
          with Sugar Addon lk \<open>x = c + 5\<close> show ?thesis by (subst cost.simps) simp
        next
          case Caramel
          with 1(2) y Some Addon obtain c where "cost' h w = Some (Inr c)" "x = c + 20"
            by (auto elim: bind_Inr_dest)
          with 1(1) have "cost (h @ [obj]) w = Some (Inr c)" by blast
          with Caramel Addon lk \<open>x = c + 20\<close> show ?thesis by (subst cost.simps) simp
        qed
      qed
    qed
  qed
qed

lemma cost_append: "cost h r = Some (Inr x) \<Longrightarrow> cost (h @ [obj]) r = Some (Inr x)"
  using cost_append_aux by blast

lemma description_append_aux:
  assumes "description h0 r0 = Some y0"
  shows "\<forall>x. y0 = Inr x \<longrightarrow> description (h0 @ [obj]) r0 = Some (Inr x)"
proof (rule description.raw_induct
    [where P = "\<lambda>h r y. \<forall>x. y = Inr x \<longrightarrow> description (h @ [obj]) r = Some (Inr x)", OF _ assms],
    goal_cases)
  case (1 description' h r y)
  show ?case
  proof (intro allI impI)
    fix x assume y: "y = Inr x"
    show "description (h @ [obj]) r = Some (Inr x)"
    proof (cases "lookup h r")
      case None
      with 1(2) y show ?thesis by simp
    next
      case (Some b)
      then have lk: "lookup (h @ [obj]) r = Some b"
        by (simp add: lookup_append_old lookup_Some_less)
      show ?thesis
      proof (cases b)
        case Coffee
        with 1(2) y Some lk show ?thesis by (subst description.simps) simp
      next
        case (Addon D w)
        show ?thesis
        proof (cases D)
          case AddonDecorator
          with 1(2) y Some Addon have "description' h w = Some (Inr x)" by simp
          with 1(1) have "description (h @ [obj]) w = Some (Inr x)" by blast
          with AddonDecorator Addon lk show ?thesis by (subst description.simps) simp
        next
          case Milk
          with 1(2) y Some Addon obtain d
            where "description' h w = Some (Inr d)" "x = d @ '' + Milk''"
            by (auto elim: bind_Inr_dest)
          with 1(1) have "description (h @ [obj]) w = Some (Inr d)" by blast
          with Milk Addon lk \<open>x = d @ '' + Milk''\<close> show ?thesis
            by (subst description.simps) simp
        next
          case Sugar
          with 1(2) y Some Addon obtain d
            where "description' h w = Some (Inr d)" "x = d @ '' + Sugar''"
            by (auto elim: bind_Inr_dest)
          with 1(1) have "description (h @ [obj]) w = Some (Inr d)" by blast
          with Sugar Addon lk \<open>x = d @ '' + Sugar''\<close> show ?thesis
            by (subst description.simps) simp
        next
          case Caramel
          with 1(2) y Some Addon obtain d
            where "description' h w = Some (Inr d)" "x = d @ '' + Caramel''"
            by (auto elim: bind_Inr_dest)
          with 1(1) have "description (h @ [obj]) w = Some (Inr d)" by blast
          with Caramel Addon lk \<open>x = d @ '' + Caramel''\<close> show ?thesis
            by (subst description.simps) simp
        qed
      qed
    qed
  qed
qed

lemma description_append:
  "description h r = Some (Inr x) \<Longrightarrow> description (h @ [obj]) r = Some (Inr x)"
  using description_append_aux by blast

subsection \<open>One wrap\<close>

lemma cost_Addon:
  "lookup h r = Some (Addon D w) \<Longrightarrow> cost h w = Some (Inr x)
    \<Longrightarrow> cost h r = Some (Inr (x + price D))"
  by (subst cost.simps, cases D) simp_all

lemma description_Addon:
  "lookup h r = Some (Addon D w) \<Longrightarrow> description h w = Some (Inr s)
    \<Longrightarrow> description h r = Some (Inr (s @ suffix D))"
  by (subst description.simps, cases D) simp_all

lemma cost_wrap:
  assumes "cost h b = Some (Inr x)" and "wrap D b h = (r, h')"
  shows "cost h' r = Some (Inr (x + price D))" and "cost h' b = Some (Inr x)"
proof -
  from assms(2) have r: "r = length h" and h': "h' = h @ [Addon D b]"
    by (simp_all add: wrap_def new_object_def)
  from assms(1) show old: "cost h' b = Some (Inr x)"
    unfolding h' by (rule cost_append)
  have "lookup h' r = Some (Addon D b)"
    unfolding r h' by (rule lookup_append_new)
  then show "cost h' r = Some (Inr (x + price D))"
    using old by (rule cost_Addon)
qed

lemma description_wrap:
  assumes "description h b = Some (Inr s)" and "wrap D b h = (r, h')"
  shows "description h' r = Some (Inr (s @ suffix D))" and "description h' b = Some (Inr s)"
proof -
  from assms(2) have r: "r = length h" and h': "h' = h @ [Addon D b]"
    by (simp_all add: wrap_def new_object_def)
  from assms(1) show old: "description h' b = Some (Inr s)"
    unfolding h' by (rule description_append)
  have "lookup h' r = Some (Addon D b)"
    unfolding r h' by (rule lookup_append_new)
  then show "description h' r = Some (Inr (s @ suffix D))"
    using old by (rule description_Addon)
qed

lemma cost_wrap_other:
  "cost h a = Some (Inr x) \<Longrightarrow> wrap D b h = (r, h') \<Longrightarrow> cost h' a = Some (Inr x)"
  by (auto simp: wrap_def new_object_def intro: cost_append)

lemma description_wrap_other:
  "description h a = Some (Inr s) \<Longrightarrow> wrap D b h = (r, h')
    \<Longrightarrow> description h' a = Some (Inr s)"
  by (auto simp: wrap_def new_object_def intro: description_append)

subsection \<open>A sequence of wraps\<close>

lemma cost_wrap_in_order:
  "cost h b = Some (Inr x) \<Longrightarrow> wrap_in_order Ds b h = (r, h')
    \<Longrightarrow> cost h' r = Some (Inr (foldl (\<lambda>c D. c + price D) x Ds))"
proof (induction Ds arbitrary: b h x)
  case Nil
  then show ?case by simp
next
  case (Cons D Ds)
  obtain b1 h1 where w: "wrap D b h = (b1, h1)" by (cases "wrap D b h")
  with Cons.prems(2) have rest: "wrap_in_order Ds b1 h1 = (r, h')" by simp
  from Cons.prems(1) w have "cost h1 b1 = Some (Inr (x + price D))" by (rule cost_wrap)
  from Cons.IH [OF this rest] show ?case by simp
qed

lemma description_wrap_in_order:
  "description h b = Some (Inr s) \<Longrightarrow> wrap_in_order Ds b h = (r, h')
    \<Longrightarrow> description h' r = Some (Inr (foldl (\<lambda>s D. s @ suffix D) s Ds))"
proof (induction Ds arbitrary: b h s)
  case Nil
  then show ?case by simp
next
  case (Cons D Ds)
  obtain b1 h1 where w: "wrap D b h = (b1, h1)" by (cases "wrap D b h")
  with Cons.prems(2) have rest: "wrap_in_order Ds b1 h1 = (r, h')" by simp
  from Cons.prems(1) w have "description h1 b1 = Some (Inr (s @ suffix D))"
    by (rule description_wrap)
  from Cons.IH [OF this rest] show ?case by simp
qed

lemma cost_wrap_in_order_other:
  "cost h a = Some (Inr x) \<Longrightarrow> wrap_in_order Ds b h = (r, h') \<Longrightarrow> cost h' a = Some (Inr x)"
proof (induction Ds arbitrary: b h)
  case Nil
  then show ?case by simp
next
  case (Cons D Ds)
  obtain b1 h1 where w: "wrap D b h = (b1, h1)" by (cases "wrap D b h")
  with Cons.prems(2) have rest: "wrap_in_order Ds b1 h1 = (r, h')" by simp
  from Cons.prems(1) w have "cost h1 a = Some (Inr x)" by (rule cost_wrap_other)
  from Cons.IH [OF this rest] show ?case .
qed

lemma description_wrap_in_order_other:
  "description h a = Some (Inr s) \<Longrightarrow> wrap_in_order Ds b h = (r, h')
    \<Longrightarrow> description h' a = Some (Inr s)"
proof (induction Ds arbitrary: b h)
  case Nil
  then show ?case by simp
next
  case (Cons D Ds)
  obtain b1 h1 where w: "wrap D b h = (b1, h1)" by (cases "wrap D b h")
  with Cons.prems(2) have rest: "wrap_in_order Ds b1 h1 = (r, h')" by simp
  from Cons.prems(1) w have "description h1 a = Some (Inr s)" by (rule description_wrap_other)
  from Cons.IH [OF this rest] show ?case .
qed

lemma wrap_in_order_ref:
  "wrap_in_order Ds b h = (r, h') \<Longrightarrow>
     length h' = length h + length Ds \<and> (Ds \<noteq> [] \<longrightarrow> r = length h + length Ds - 1)"
proof (induction Ds arbitrary: b h)
  case Nil
  then show ?case by simp
next
  case (Cons D Ds)
  obtain b1 h1 where w: "wrap D b h = (b1, h1)" by (cases "wrap D b h")
  with Cons.prems have rest: "wrap_in_order Ds b1 h1 = (r, h')" by simp
  from w have b1: "b1 = length h" and h1: "length h1 = Suc (length h)"
    by (auto simp: wrap_def new_object_def)
  from Cons.IH [OF rest] h1 b1 rest show ?case by (cases Ds) auto
qed

lemma foldl_price:
  "foldl (\<lambda>c D. c + price D) x Ds =
     x + 10 * int (count_list Ds Milk) + 5 * int (count_list Ds Sugar)
       + 20 * int (count_list Ds Caramel)"
proof (induction Ds arbitrary: x)
  case Nil
  then show ?case by simp
next
  case (Cons D Ds)
  then show ?case by (cases D) simp_all
qed

subsection \<open>Notifiers\<close>

lemma send_appends: "send c m out = out @ send c m []"
proof (induction c arbitrary: out)
  case BasicNotifier
  show ?case by (simp add: print_def)
next
  case (Decorator D c)
  from Decorator [of out] show ?case by (cases D) (simp_all add: print_def)
qed

lemma send_Decorator: "send (Decorator D c) m out = send c m out @ own_lines D m"
  by (cases D) (simp_all add: print_def)

lemma send_nest: "send (nest Ds n) m out = send n m out @ concat (map (\<lambda>D. own_lines D m) Ds)"
  unfolding nest_def
proof (induction Ds arbitrary: n)
  case Nil
  show ?case by simp
next
  case (Cons D Ds)
  show ?case by (simp add: Cons.IH send_Decorator del: send.simps)
qed

subsection \<open>The singleton\<close>

lemma Singleton_new_set:
  "Singleton_instance s = Some r \<Longrightarrow> Singleton_new s = (r, s)"
  by (simp add: Singleton_new_def)

lemma Singleton_new_sets:
  "Singleton_new s = (r, s') \<Longrightarrow> Singleton_instance s' = Some r"
  by (auto simp: Singleton_new_def new_object_def split: option.splits)

lemma after_calls_set:
  "Singleton_instance s = Some r \<Longrightarrow> after_calls n s = s"
  unfolding after_calls_def by (induction n) (simp_all add: Singleton_new_set)


section \<open>Results\<close>

subsection \<open>Beverages\<close>

text \<open>
  C1. For every finite sequence \<open>Ds\<close> of add-ons wrapped in order around a new
  \<open>Coffee\<close>, \<open>cost()\<close> of the chain returns the base cost 50 folded with the price
  of each add-on in wrap order, which is 50 plus 10 for each \<open>Milk\<close>, 5 for each
  \<open>Sugar\<close> and 20 for each \<open>Caramel\<close>, and \<open>description()\<close> returns
  "Plain Coffee" with the suffix of each add-on appended in wrap order. The store the
  chain is built in is arbitrary, and both calls return.
\<close>

theorem coffee_chain_fold:
  assumes "new_object Coffee h = (c, h1)" and "wrap_in_order Ds c h1 = (r, h2)"
  shows "cost h2 r = Some (Inr (foldl (\<lambda>a D. a + price D) 50 Ds)) \<and>
         cost h2 r = Some (Inr (50 + 10 * int (count_list Ds Milk)
                        + 5 * int (count_list Ds Sugar) + 20 * int (count_list Ds Caramel))) \<and>
         description h2 r = Some (Inr (foldl (\<lambda>s D. s @ suffix D) ''Plain Coffee'' Ds))"
proof -
  from assms(1) have c: "c = length h" and h1: "h1 = h @ [Coffee]"
    by (simp_all add: new_object_def)
  have lk: "lookup h1 c = Some Coffee"
    unfolding c h1 by (rule lookup_append_new)
  have "cost h1 c = Some (Inr 50)"
    by (subst cost.simps) (simp add: lk)
  from this assms(2) have 1: "cost h2 r = Some (Inr (foldl (\<lambda>a D. a + price D) 50 Ds))"
    by (rule cost_wrap_in_order)
  have "description h1 c = Some (Inr ''Plain Coffee'')"
    by (subst description.simps) (simp add: lk)
  from this assms(2)
  have 2: "description h2 r = Some (Inr (foldl (\<lambda>s D. s @ suffix D) ''Plain Coffee'' Ds))"
    by (rule description_wrap_in_order)
  from 1 2 show ?thesis by (simp add: foldl_price)
qed

theorem coffee_chain_fold_witness:
  "new_object Coffee [] = (0, [Coffee]) \<and>
   wrap_in_order [Sugar, Milk, Milk] 0 [Coffee]
     = (3, [Coffee, Addon Sugar 0, Addon Milk 1, Addon Milk 2]) \<and>
   cost [Coffee, Addon Sugar 0, Addon Milk 1, Addon Milk 2] 3 = Some (Inr 75) \<and>
   description [Coffee, Addon Sugar 0, Addon Milk 1, Addon Milk 2] 3
     = Some (Inr ''Plain Coffee + Sugar + Milk + Milk'')"
proof -
  have a: "new_object Coffee [] = (0, [Coffee :: beverage_obj])"
    by (simp add: new_object_def)
  have b: "wrap_in_order [Sugar, Milk, Milk] 0 [Coffee]
             = (3, [Coffee, Addon Sugar 0, Addon Milk 1, Addon Milk 2])"
    by (simp add: wrap_def new_object_def)
  from coffee_chain_fold [OF a b] a b show ?thesis by simp
qed

text \<open>
  C2. Wrapping a \<open>Coffee\<close> (cost 50, description "Plain Coffee") in \<open>Milk\<close>, then
  \<open>Sugar\<close>, then \<open>Caramel\<close>, as the main block does, gives a chain whose \<open>cost()\<close>
  returns 85 and whose \<open>description()\<close> returns
  "Plain Coffee + Milk + Sugar + Caramel".
\<close>

theorem deluxe_coffee_85:
  "cost (store main) (deluxe_coffee main) = Some (Inr 85) \<and>
   description (store main) (deluxe_coffee main)
     = Some (Inr ''Plain Coffee + Milk + Sugar + Caramel'')"
  by (simp add: main_def wrap_def new_object_def cost.simps description.simps lookup_def)

text \<open>
  C4. For every beverage \<open>b\<close> with cost \<open>x\<close> and description \<open>s\<close>, the beverage
  \<open>D(b)\<close> costs \<open>x\<close> plus the price of \<open>D\<close> and is described by \<open>s\<close> followed by
  the suffix of \<open>D\<close>, while \<open>b\<close> still reports \<open>x\<close> and \<open>s\<close>: the difference is
  exactly what \<open>D\<close> contributes. A base of cost 50 wrapped in \<open>Milk\<close> costs 60.
\<close>

theorem one_wrap_delta:
  assumes "cost h b = Some (Inr x)" and "description h b = Some (Inr s)"
    and "wrap D b h = (r, h')"
  shows "cost h' b = Some (Inr x) \<and> cost h' r = Some (Inr (x + price D)) \<and>
         description h' b = Some (Inr s) \<and> description h' r = Some (Inr (s @ suffix D))"
  using cost_wrap [OF assms(1,3)] description_wrap [OF assms(2,3)] by simp

theorem one_wrap_delta_witness:
  "cost [Coffee] 0 = Some (Inr 50) \<and> description [Coffee] 0 = Some (Inr ''Plain Coffee'') \<and>
   wrap Milk 0 [Coffee] = (1, [Coffee, Addon Milk 0]) \<and>
   cost [Coffee, Addon Milk 0] 0 = Some (Inr 50) \<and>
   cost [Coffee, Addon Milk 0] 1 = Some (Inr 60) \<and>
   description [Coffee, Addon Milk 0] 0 = Some (Inr ''Plain Coffee'') \<and>
   description [Coffee, Addon Milk 0] 1 = Some (Inr ''Plain Coffee + Milk'')"
proof -
  have a: "cost [Coffee] 0 = Some (Inr 50)"
    by (simp add: cost.simps lookup_def)
  have b: "description [Coffee] 0 = Some (Inr ''Plain Coffee'')"
    by (simp add: description.simps lookup_def)
  have c: "wrap Milk 0 [Coffee] = (1, [Coffee, Addon Milk 0])"
    by (simp add: wrap_def new_object_def)
  from one_wrap_delta [OF a b c] a b c show ?thesis by simp
qed

text \<open>
  C5. Two chains built from the same sequence of add-ons over bases that report the same
  cost and description report the same cost and description, whatever stores they are
  built in, and both calls return. When the second chain is built in the store the first
  one left, both chains are alive there with equal results, and for a sequence that is
  not empty they are different references.
\<close>

theorem same_choices_same_results:
  assumes "cost g1 b1 = Some (Inr x)" and "cost g2 b2 = Some (Inr x)"
    and "description g1 b1 = Some (Inr s)" and "description g2 b2 = Some (Inr s)"
    and "wrap_in_order Ds b1 g1 = (r1, h1)" and "wrap_in_order Ds b2 g2 = (r2, h2)"
  shows "cost h1 r1 = cost h2 r2 \<and> description h1 r1 = description h2 r2 \<and>
         (\<exists>y. cost h1 r1 = Some (Inr y)) \<and> (\<exists>t. description h1 r1 = Some (Inr t)) \<and>
         (g2 = h1 \<longrightarrow> cost h2 r1 = cost h2 r2 \<and> description h2 r1 = description h2 r2 \<and>
                      (Ds \<noteq> [] \<longrightarrow> r1 \<noteq> r2))"
proof -
  note c1 = cost_wrap_in_order [OF assms(1,5)]
  note c2 = cost_wrap_in_order [OF assms(2,6)]
  note d1 = description_wrap_in_order [OF assms(3,5)]
  note d2 = description_wrap_in_order [OF assms(4,6)]
  have same: "g2 = h1 \<longrightarrow> cost h2 r1 = cost h2 r2 \<and> description h2 r1 = description h2 r2 \<and>
                      (Ds \<noteq> [] \<longrightarrow> r1 \<noteq> r2)"
  proof
    assume g2: "g2 = h1"
    from c1 assms(6) have "cost h2 r1 = Some (Inr (foldl (\<lambda>c D. c + price D) x Ds))"
      unfolding g2 by (rule cost_wrap_in_order_other)
    moreover from d1 assms(6)
    have "description h2 r1 = Some (Inr (foldl (\<lambda>s D. s @ suffix D) s Ds))"
      unfolding g2 by (rule description_wrap_in_order_other)
    moreover have "Ds \<noteq> [] \<longrightarrow> r1 \<noteq> r2"
      using wrap_in_order_ref [OF assms(5)] wrap_in_order_ref [OF assms(6)] g2
      by (cases Ds) auto
    ultimately show "cost h2 r1 = cost h2 r2 \<and> description h2 r1 = description h2 r2 \<and>
                      (Ds \<noteq> [] \<longrightarrow> r1 \<noteq> r2)"
      using c2 d2 by simp
  qed
  from c1 c2 d1 d2 same show ?thesis by simp
qed

theorem same_choices_same_results_witness:
  "cost [Coffee, Coffee] 0 = Some (Inr 50) \<and> cost [Coffee, Coffee, Addon Milk 0, Addon Sugar 2] 1 = Some (Inr 50) \<and>
   wrap_in_order [Milk, Sugar] 0 [Coffee, Coffee] = (3, [Coffee, Coffee, Addon Milk 0, Addon Sugar 2]) \<and>
   wrap_in_order [Milk, Sugar] 1 [Coffee, Coffee, Addon Milk 0, Addon Sugar 2]
     = (5, [Coffee, Coffee, Addon Milk 0, Addon Sugar 2, Addon Milk 1, Addon Sugar 4]) \<and>
   cost [Coffee, Coffee, Addon Milk 0, Addon Sugar 2, Addon Milk 1, Addon Sugar 4] 3
     = cost [Coffee, Coffee, Addon Milk 0, Addon Sugar 2, Addon Milk 1, Addon Sugar 4] 5 \<and>
   cost [Coffee, Coffee, Addon Milk 0, Addon Sugar 2, Addon Milk 1, Addon Sugar 4] 5 = Some (Inr 65) \<and>
   description [Coffee, Coffee, Addon Milk 0, Addon Sugar 2, Addon Milk 1, Addon Sugar 4] 3
     = description [Coffee, Coffee, Addon Milk 0, Addon Sugar 2, Addon Milk 1, Addon Sugar 4] 5 \<and>
   (3::nat) \<noteq> 5"
proof -
  let ?g1 = "[Coffee, Coffee]"
  let ?h1 = "[Coffee, Coffee, Addon Milk 0, Addon Sugar 2]"
  let ?h2 = "[Coffee, Coffee, Addon Milk 0, Addon Sugar 2, Addon Milk 1, Addon Sugar 4]"
  have a: "cost ?g1 0 = Some (Inr 50)" by (simp add: cost.simps lookup_def)
  have b: "cost ?h1 1 = Some (Inr 50)" by (simp add: cost.simps lookup_def)
  have c: "description ?g1 0 = Some (Inr ''Plain Coffee'')"
    by (simp add: description.simps lookup_def)
  have d: "description ?h1 1 = Some (Inr ''Plain Coffee'')"
    by (simp add: description.simps lookup_def)
  have e: "wrap_in_order [Milk, Sugar] 0 ?g1 = (3, ?h1)"
    by (simp add: wrap_def new_object_def)
  have f: "wrap_in_order [Milk, Sugar] 1 ?h1 = (5, ?h2)"
    by (simp add: wrap_def new_object_def)
  have g: "cost ?h2 5 = Some (Inr 65)" by (simp add: cost.simps lookup_def)
  from same_choices_same_results [OF a b c d e f] a b e f g show ?thesis by simp
qed

text \<open>
  C7. Wrapping mutates nothing: after \<open>D(c)\<close> is constructed, \<open>c\<close> reports the cost
  and the description it reported before, every reference of the old store denotes the
  object it denoted, and the result is a new reference, one that denoted no object
  before and differs from \<open>c\<close>.
\<close>

theorem wrap_leaves_wrapped:
  assumes "cost h c = Some (Inr x)" and "description h c = Some (Inr s)"
    and "wrap D c h = (d, h')"
  shows "cost h' c = Some (Inr x) \<and> description h' c = Some (Inr s) \<and>
         (\<forall>r < length h. lookup h' r = lookup h r) \<and>
         lookup h d = None \<and> lookup h' d = Some (Addon D c) \<and> d \<noteq> c"
proof -
  from assms(3) have d: "d = length h" and h': "h' = h @ [Addon D c]"
    by (simp_all add: wrap_def new_object_def)
  have "c < length h"
  proof (rule ccontr)
    assume "\<not> c < length h"
    then have "lookup h c = None" by (simp add: lookup_def)
    then have "cost h c = Some (Inl AttributeError)" by (subst cost.simps) simp
    with assms(1) show False by simp
  qed
  with d have "d \<noteq> c" by simp
  moreover have "\<forall>r < length h. lookup h' r = lookup h r"
    unfolding h' by (simp add: lookup_append_old)
  moreover have "lookup h d = None" unfolding d by (rule lookup_fresh)
  moreover have "lookup h' d = Some (Addon D c)" unfolding d h' by (rule lookup_append_new)
  moreover note cost_wrap_other [OF assms(1,3)] description_wrap_other [OF assms(2,3)]
  ultimately show ?thesis by simp
qed

theorem wrap_leaves_wrapped_witness:
  "cost [Coffee] 0 = Some (Inr 50) \<and> description [Coffee] 0 = Some (Inr ''Plain Coffee'') \<and>
   wrap Caramel 0 [Coffee] = (1, [Coffee, Addon Caramel 0]) \<and>
   cost [Coffee, Addon Caramel 0] 0 = Some (Inr 50) \<and>
   description [Coffee, Addon Caramel 0] 0 = Some (Inr ''Plain Coffee'') \<and>
   lookup [Coffee, Addon Caramel 0] 0 = lookup [Coffee] 0 \<and>
   lookup [Coffee] 1 = None \<and>
   lookup [Coffee, Addon Caramel 0] 1 = Some (Addon Caramel 0)"
proof -
  have a: "cost [Coffee] 0 = Some (Inr 50)"
    by (simp add: cost.simps lookup_def)
  have b: "description [Coffee] 0 = Some (Inr ''Plain Coffee'')"
    by (simp add: description.simps lookup_def)
  have c: "wrap Caramel 0 [Coffee] = (1, [Coffee, Addon Caramel 0])"
    by (simp add: wrap_def new_object_def)
  from wrap_leaves_wrapped [OF a b c] a b c show ?thesis by simp
qed

subsection \<open>The decorator base classes\<close>

text \<open>
  C6. The abstract decorator base forwards every operation unchanged: on an
  \<open>AddonDecorator\<close> object that wraps \<open>c\<close>, \<open>cost()\<close> and \<open>description()\<close> are
  exactly \<open>c.cost()\<close> and \<open>c.description()\<close> (the same value, the same exception, or
  neither returns), and \<open>send(m)\<close> of \<open>NotificationDecorator\<close> does to the console
  exactly what \<open>n.send(m)\<close> does.
\<close>

theorem decorator_base_forwards:
  assumes "lookup h self = Some (Addon AddonDecorator c)"
  shows "cost h self = cost h c \<and> description h self = description h c \<and>
         send (Decorator NotificationDecorator n) m out = send n m out \<and>
         NotificationDecorator_send n m out = send n m out"
proof -
  from assms have "cost h self = cost h c" by (subst cost.simps) simp
  moreover from assms have "description h self = description h c"
    by (subst description.simps) simp
  ultimately show ?thesis by simp
qed

theorem decorator_base_forwards_witness:
  "lookup [Coffee, Addon AddonDecorator 0] 1 = Some (Addon AddonDecorator 0) \<and>
   cost [Coffee, Addon AddonDecorator 0] 1 = cost [Coffee, Addon AddonDecorator 0] 0 \<and>
   cost [Coffee, Addon AddonDecorator 0] 0 = Some (Inr 50) \<and>
   description [Coffee, Addon AddonDecorator 0] 1
     = description [Coffee, Addon AddonDecorator 0] 0 \<and>
   description [Coffee, Addon AddonDecorator 0] 0 = Some (Inr ''Plain Coffee'') \<and>
   send (Decorator NotificationDecorator BasicNotifier) ''Hello'' []
     = send BasicNotifier ''Hello'' [] \<and>
   send BasicNotifier ''Hello'' [] = [''Basic Notificatio: Hello'']"
proof -
  have a: "lookup [Coffee, Addon AddonDecorator 0] 1 = Some (Addon AddonDecorator 0)"
    by (simp add: lookup_def)
  have b: "cost [Coffee, Addon AddonDecorator 0] 0 = Some (Inr 50)"
    by (simp add: cost.simps lookup_def)
  have c: "description [Coffee, Addon AddonDecorator 0] 0 = Some (Inr ''Plain Coffee'')"
    by (simp add: description.simps lookup_def)
  have d: "send BasicNotifier ''Hello'' [] = [''Basic Notificatio: Hello'']"
    by (simp add: print_def)
  from decorator_base_forwards [OF a, of BasicNotifier "''Hello''" "[]"] a b c d
  show ?thesis by simp
qed

subsection \<open>Notifiers\<close>

text \<open>
  C8. In each concrete notification decorator the wrapped \<open>send(message)\<close> has run to
  its end when the decorator prints: the console after the call is the console the
  wrapped call left, followed by the decorator's line. A wrapped call only appends to
  the console. So a chain around \<open>BasicNotifier\<close> prints the basic line first, then
  the decorators' lines from the innermost to the outermost, whose line is last.
\<close>

theorem wrapped_send_completes_first:
  "send (Decorator EmailNotifier c) m out = send c m out @ [envelope @ '' Sending Email: '' @ m] \<and>
   send (Decorator SMSNotifier c) m out = send c m out @ [mobile_phone @ '' Sending SMS: '' @ m] \<and>
   send (Decorator PushNotifier c) m out
     = send c m out @ [bell @ '' Sending Push Notification: '' @ m] \<and>
   send c m out = out @ send c m [] \<and>
   send (nest Ds BasicNotifier) m out
     = out @ (''Basic Notificatio: '' @ m) # concat (map (\<lambda>D. own_lines D m) Ds)"
proof -
  have "send (nest Ds BasicNotifier) m out
     = out @ (''Basic Notificatio: '' @ m) # concat (map (\<lambda>D. own_lines D m) Ds)"
    by (simp add: send_nest print_def)
  moreover have "send c m out = out @ send c m []" by (rule send_appends)
  ultimately show ?thesis by (simp add: print_def)
qed

subsection \<open>The notification factory\<close>

text \<open>
  C3. For every string that is not "email", "sms" or "push",
  \<open>get_notification_factory\<close> raises \<open>ValueError("Invalid notification type")\<close> and
  the store is the one it was called in: no object has been constructed, and the result
  is the exception at once.
\<close>

theorem unknown_type_rejected:
  assumes "notification_type \<notin> {''email'', ''sms'', ''push''}"
  shows "get_notification_factory notification_type h
           = (Inl (ValueError ''Invalid notification type''), h)"
  using assms by (simp add: get_notification_factory_def)

theorem unknown_type_rejected_witness:
  "''fax'' \<notin> {''email'', ''sms'', ''push''} \<and>
   get_notification_factory ''fax'' [] = (Inl (ValueError ''Invalid notification type''), []) \<and>
   ''Email'' \<notin> {''email'', ''sms'', ''push''} \<and>
   get_notification_factory ''Email'' [SMSNotification]
     = (Inl (ValueError ''Invalid notification type''), [SMSNotification])"
proof -
  have a: "''fax'' \<notin> {''email'', ''sms'', ''push''}" by simp
  have b: "''Email'' \<notin> {''email'', ''sms'', ''push''}" by simp
  from unknown_type_rejected [OF a, of "[]"] unknown_type_rejected [OF b, of "[SMSNotification]"]
    a b
  show ?thesis by simp
qed

text \<open>
  C10. For "email", "sms" and "push", \<open>get_notification_factory\<close> returns a new
  \<open>EmailNotification\<close>, \<open>SMSNotification\<close> or \<open>PushNotification\<close>: an instance of
  \<open>Notification\<close> and not of \<open>NotificationFactory\<close>, whose \<open>notify(message)\<close> prints
  the line of its channel for that message.
\<close>

theorem recognised_types_give_products:
  "get_notification_factory ''email'' h = (Inr (length h), h @ [EmailNotification]) \<and>
   isinstance (h @ [EmailNotification]) (length h) Notification \<and>
   \<not> isinstance (h @ [EmailNotification]) (length h) NotificationFactory \<and>
   notify (h @ [EmailNotification]) (length h) m out
     = Inr (out @ [envelope @ '' Sending Email: '' @ m]) \<and>
   get_notification_factory ''sms'' h = (Inr (length h), h @ [SMSNotification]) \<and>
   isinstance (h @ [SMSNotification]) (length h) Notification \<and>
   \<not> isinstance (h @ [SMSNotification]) (length h) NotificationFactory \<and>
   notify (h @ [SMSNotification]) (length h) m out
     = Inr (out @ [mobile_phone @ '' Sending SMS: '' @ m]) \<and>
   get_notification_factory ''push'' h = (Inr (length h), h @ [PushNotification]) \<and>
   isinstance (h @ [PushNotification]) (length h) Notification \<and>
   \<not> isinstance (h @ [PushNotification]) (length h) NotificationFactory \<and>
   notify (h @ [PushNotification]) (length h) m out
     = Inr (out @ [mobile_phone_arrow @ '' Sending Push Notification: '' @ m])"
  by (simp add: get_notification_factory_def new_object_def isinstance_def notify_def
      print_def lookup_def)

subsection \<open>The singleton\<close>

text \<open>
  C9. Every call of the \<open>Singleton\<close> constructor returns the same instance: if one call
  returned \<open>r1\<close>, then a call made after any number of further calls returns \<open>r1\<close>
  too, and \<open>_instance\<close>, once set, is never replaced: the state of the module no
  longer changes.
\<close>

theorem singleton_same_instance:
  assumes "Singleton_new s = (r1, s1)" and "Singleton_new (after_calls n s1) = (r2, s2)"
  shows "r2 = r1 \<and> s2 = s1 \<and> Singleton_instance s1 = Some r1 \<and> after_calls n s1 = s1"
proof -
  from assms(1) have set: "Singleton_instance s1 = Some r1" by (rule Singleton_new_sets)
  then have same: "after_calls n s1 = s1" by (rule after_calls_set)
  from set have "Singleton_new s1 = (r1, s1)" by (rule Singleton_new_set)
  with assms(2) same set show ?thesis by simp
qed

theorem singleton_same_instance_witness:
  "Singleton_new class_body = (0, \<lparr>Singleton_instance = Some 0, instances = [Singleton]\<rparr>) \<and>
   Singleton_new (after_calls 2 \<lparr>Singleton_instance = Some 0, instances = [Singleton]\<rparr>)
     = (0, \<lparr>Singleton_instance = Some 0, instances = [Singleton]\<rparr>) \<and>
   after_calls 2 \<lparr>Singleton_instance = Some 0, instances = [Singleton]\<rparr>
     = \<lparr>Singleton_instance = Some 0, instances = [Singleton]\<rparr>"
proof -
  let ?s1 = "\<lparr>Singleton_instance = Some 0, instances = [Singleton]\<rparr>"
  have a: "Singleton_new class_body = (0, ?s1)"
    by (simp add: Singleton_new_def class_body_def new_object_def)
  have b: "Singleton_new (after_calls 2 ?s1) = (0, ?s1)"
    by (simp add: after_calls_def Singleton_new_def numeral_2_eq_2)
  from singleton_same_instance [OF a b] a b show ?thesis by simp
qed

end
